theory Spec2Isabelle
  imports
    Complex_Main
    "HOL-Library.Char_ord"
    "HOL-Library.List_Lexorder"
    "HOL-Library.Option_ord"
    "HOL-Library.Product_Lexorder"
begin

section \<open>Volvo SQLite to knowledge-base importer: \<open>scripts/import_volvo_to_supabase.py\<close>\<close>

text \<open>
  The script reads three SQLite tables, renders one text chunk per canonical product row,
  asks an embedding service for one vector per chunk and bulk-inserts the embedded chunks
  into a document store. The model below follows the script function by function.

  Conventions of the model.
  \<^item> A Python \<open>str\<close> is a \<open>string\<close> holding its code points; the literals of the script
    only use code points below 256 (\<open>CHR 0xE4\<close> is a-umlaut, \<open>CHR 0xE5\<close> is a-ring,
    \<open>CHR 0xC4\<close> is A-umlaut), so \<open>length\<close> is Python's \<open>len\<close>.
  \<^item> A nullable column is an \<open>option\<close>; \<open>None\<close> is SQL \<open>NULL\<close> and Python \<open>None\<close>.
  \<^item> A table is the list of its rows in the order in which SQLite scans them (rowid order).
    \<open>ORDER BY\<close> is the stable \<open>sort_key\<close>, so rows that tie on every sort key
    keep their scan order.
  \<^item> A price (SQLite \<open>REAL\<close>, Python \<open>float\<close>) is the exact rational value of the float.
\<close>

subsection \<open>Python string helpers\<close>

text \<open>\<open>sep.join(xs)\<close>\<close>

fun join :: "string \<Rightarrow> string list \<Rightarrow> string" where
  "join sep [] = []"
| "join sep [x] = x"
| "join sep (x # y # ys) = x @ sep @ join sep (y # ys)"

text \<open>\<open>s.split(c)\<close> for a one-character separator: always at least one piece.\<close>

fun split_char :: "char \<Rightarrow> string \<Rightarrow> string list" where
  "split_char c [] = [[]]"
| "split_char c (x # xs) =
     (if x = c then [] # split_char c xs
      else (case split_char c xs of
              [] \<Rightarrow> [[x]]
            | w # ws \<Rightarrow> (x # w) # ws))"

text \<open>\<open>str.isspace\<close> on one character, for code points below 256.\<close>

definition py_isspace :: "char \<Rightarrow> bool" where
  "py_isspace c =
     (let n = (of_char c :: nat)
      in (9 \<le> n \<and> n \<le> 13) \<or> (28 \<le> n \<and> n \<le> 32) \<or> n = 133 \<or> n = 160)"

text \<open>\<open>s.strip()\<close>\<close>

definition strip :: "string \<Rightarrow> string" where
  "strip s = rev (dropWhile py_isspace (rev (dropWhile py_isspace s)))"

text \<open>\<open>a in b\<close> for two strings: \<open>a\<close> occurs in \<open>b\<close> as a contiguous substring.\<close>

fun starts_with :: "string \<Rightarrow> string \<Rightarrow> bool" where
  "starts_with [] ys = True"
| "starts_with (x # xs) [] = False"
| "starts_with (x # xs) (y # ys) = (x = y \<and> starts_with xs ys)"

fun str_in :: "string \<Rightarrow> string \<Rightarrow> bool" where
  "str_in a [] = (a = [])"
| "str_in a (y # ys) = (starts_with a (y # ys) \<or> str_in a ys)"

text \<open>\<open>str(n)\<close> for a non-negative and for an arbitrary integer.\<close>

definition digit_char :: "nat \<Rightarrow> char" where
  "digit_char d = ''0123456789'' ! (d mod 10)"

fun show_nat :: "nat \<Rightarrow> string" where
  "show_nat n = (if n < 10 then [digit_char n] else show_nat (n div 10) @ [digit_char (n mod 10)])"

declare show_nat.simps [simp del]

definition show_int :: "int \<Rightarrow> string" where
  "show_int i = (if i < 0 then CHR ''-'' # show_nat (nat (- i)) else show_nat (nat i))"

text \<open>
  \<open>f"{p:.2f}"\<close>: the exact value of the float rounded to two decimals, ties to even, the
  sign printed whenever the value is negative.
\<close>

definition round_half_even :: "rat \<Rightarrow> int" where
  "round_half_even q =
     (let f = \<lfloor>q\<rfloor>; d = q - of_int f
      in if d < 1 / 2 then f
         else if 1 / 2 < d then f + 1
         else if even f then f else f + 1)"

definition fmt_2f :: "rat \<Rightarrow> string" where
  "fmt_2f p =
     (let n = nat (round_half_even (\<bar>p\<bar> * 100))
      in (if p < 0 then ''-'' else '''') @ show_nat (n div 100) @ ''.''
           @ [digit_char (n div 10 mod 10), digit_char (n mod 10)])"

text \<open>Python truthiness of a nullable string, and \<open>a or b\<close> on such values.\<close>

definition truthy :: "string option \<Rightarrow> bool" where
  "truthy s = (case s of None \<Rightarrow> False | Some t \<Rightarrow> t \<noteq> [])"

text \<open>Python truthiness of a nullable number.\<close>

definition truthy_num :: "'a::zero option \<Rightarrow> bool" where
  "truthy_num x = (case x of None \<Rightarrow> False | Some v \<Rightarrow> v \<noteq> 0)"

text \<open>\<open>f"{x}"\<close> of a nullable string: \<open>None\<close> prints as the word None.\<close>

definition show_opt :: "string option \<Rightarrow> string" where
  "show_opt s = (case s of None \<Rightarrow> ''None'' | Some t \<Rightarrow> t)"

subsection \<open>The source tables\<close>

text \<open>
  Modelled from the spec: the schema of the SQLite file is not part of the script. The
  columns are the ones the script reads; \<open>id\<close> is the integer row id, \<open>has_fitments\<close>
  is the 0/1 flag of the data model (so \<open>has_fitments = 1\<close> is the flag itself and
  \<open>ORDER BY has_fitments DESC\<close> puts the rows with fitments first), the names and
  catalogue identifiers are nullable text, the price is a nullable number.
\<close>

record product =
  row_id :: int
  oe_nummer :: "string option"
  normalized_name :: "string option"
  swedish_translation :: "string option"
  skandix_name_eng :: "string option"
  kl_namn :: "string option"
  folkrace_namn :: "string option"
  vp_namn :: "string option"
  cvr_namn :: "string option"
  fordon_namn :: "string option"
  vp_artikelnummer :: "string option"
  skandix_product_id :: "string option"
  part_system :: "string option"
  skandix_price :: "rat option"
  source :: "string option"
  has_fitments :: bool
  translation_status :: "string option"

record fitment =
  f_product_id :: int
  f_model :: "string option"
  f_variant :: "string option"
  f_year_from :: "int option"
  f_year_to :: "int option"
  f_engine :: "string option"

record alt_name =
  a_product_id :: int
  alternative_name :: "string option"
  source_site :: "string option"

record database =
  products :: "product list"
  expanded_fitments :: "fitment list"
  alternative_names :: "alt_name list"

subsection \<open>The deduplication query of \<open>import_products\<close>\<close>

text \<open>\<open>has_fitments = 1 OR translation_status = 'verified'\<close>\<close>

definition eligible :: "product \<Rightarrow> bool" where
  "eligible r = (has_fitments r \<or> translation_status r = Some ''verified'')"

text \<open>
  The sort key of the inner \<open>ORDER BY has_fitments DESC, translation_status = 'verified' DESC,
  normalized_name IS NOT NULL DESC, skandix_price IS NOT NULL DESC\<close>, as a tuple that
  sorts ascending. A \<open>NULL\<close> status makes the comparison \<open>NULL\<close>, which a descending
  sort puts after 1 and 0.
\<close>

definition rank_key :: "product \<Rightarrow> nat \<times> nat \<times> nat \<times> nat" where
  "rank_key r =
     ((if has_fitments r then 0 else 1),
      (case translation_status r of
         None \<Rightarrow> 2
       | Some s \<Rightarrow> if s = ''verified'' then 0 else 1),
      (if normalized_name r \<noteq> None then 0 else 1),
      (if skandix_price r \<noteq> None then 0 else 1))"

text \<open>\<open>SELECT ... FROM products p2 WHERE p2.oe_nummer = ? ORDER BY ...\<close> for a part number.\<close>

definition group_ranked :: "product list \<Rightarrow> string \<Rightarrow> product list" where
  "group_ranked tbl oe = sort_key rank_key [p2 \<leftarrow> tbl. oe_nummer p2 = Some oe]"

text \<open>
  The correlated scalar subquery with \<open>LIMIT 1\<close>: the id of the first ranked row of the
  group of \<open>p1\<close>; \<open>NULL\<close> when \<open>p1\<close> has no part number (a comparison with \<open>NULL\<close>
  matches no row).
\<close>

definition best_id :: "product list \<Rightarrow> product \<Rightarrow> int option" where
  "best_id tbl p1 =
     (case oe_nummer p1 of
        None \<Rightarrow> None
      | Some oe \<Rightarrow> (case group_ranked tbl oe of [] \<Rightarrow> None | b # _ \<Rightarrow> Some (row_id b)))"

text \<open>\<open>SELECT id FROM products p1 WHERE id = (...)\<close>\<close>

definition representative_ids :: "product list \<Rightarrow> int list" where
  "representative_ids tbl = [row_id p1. p1 \<leftarrow> tbl, best_id tbl p1 = Some (row_id p1)]"

text \<open>The whole query, with \<open>ORDER BY has_fitments DESC, id LIMIT ?\<close>.\<close>

definition canonical_rows :: "product list \<Rightarrow> nat \<Rightarrow> product list" where
  "canonical_rows tbl limit =
     take limit
       (sort_key (\<lambda>r. (\<not> has_fitments r, row_id r))
          [r \<leftarrow> tbl. row_id r \<in> set (representative_ids tbl) \<and> eligible r])"

text \<open>\<open>MAX_PRODUCTS = None\<close>, and the row limit computed from \<open>SELECT COUNT(*)\<close>.\<close>

definition MAX_PRODUCTS :: "nat option" where
  "MAX_PRODUCTS = None"

definition total_products :: "product list \<Rightarrow> nat" where
  "total_products tbl =
     (case MAX_PRODUCTS of
        None \<Rightarrow> length tbl
      | Some m \<Rightarrow> if m \<noteq> 0 then min (length tbl) m else length tbl)"

subsection \<open>\<open>format_fitments\<close>\<close>

text \<open>Order-preserving removal of duplicates: the first occurrence stays.\<close>

fun distinct_first :: "'a list \<Rightarrow> 'a list" where
  "distinct_first [] = []"
| "distinct_first (x # xs) = x # [y \<leftarrow> distinct_first xs. y \<noteq> x]"

text \<open>The non-\<open>NULL\<close> values of a column.\<close>

definition non_null :: "'a option list \<Rightarrow> 'a list" where
  "non_null xs = [x. Some x \<leftarrow> xs]"

text \<open>
  \<open>GROUP_CONCAT(DISTINCT col)\<close>: the distinct non-\<open>NULL\<close> values in the order in which
  the group's rows are scanned, joined by a comma; \<open>NULL\<close> when there is none.
\<close>

definition group_concat_distinct :: "string option list \<Rightarrow> string option" where
  "group_concat_distinct col =
     (case distinct_first (non_null col) of
        [] \<Rightarrow> None
      | y # ys \<Rightarrow> Some (join '','' (y # ys)))"

text \<open>\<open>MIN(col)\<close> and \<open>MAX(col)\<close>: over the non-\<open>NULL\<close> values, \<open>NULL\<close> when there is none.\<close>

definition sql_min :: "int option list \<Rightarrow> int option" where
  "sql_min col = (case non_null col of [] \<Rightarrow> None | y # ys \<Rightarrow> Some (Min (set (y # ys))))"

definition sql_max :: "int option list \<Rightarrow> int option" where
  "sql_max col = (case non_null col of [] \<Rightarrow> None | y # ys \<Rightarrow> Some (Max (set (y # ys))))"

text \<open>One result row of the grouped query: model, variants, year\_start, year\_end, engines.\<close>

type_synonym fitment_group =
  "string option \<times> string option \<times> int option \<times> int option \<times> string option"

text \<open>The rows of \<open>expanded_fitments\<close> with \<open>product_id = ?\<close>.\<close>

definition fitments_of :: "database \<Rightarrow> int \<Rightarrow> fitment list" where
  "fitments_of db product_id = [f \<leftarrow> expanded_fitments db. f_product_id f = product_id]"

text \<open>\<open>GROUP BY model ORDER BY model\<close>: one row per distinct model, \<open>NULL\<close> first.\<close>

definition fitment_groups :: "database \<Rightarrow> int \<Rightarrow> fitment_group list" where
  "fitment_groups db product_id =
     (let rows = fitments_of db product_id
      in map (\<lambda>m. let grp = [f \<leftarrow> rows. f_model f = m]
                  in (m,
                      group_concat_distinct (map f_variant grp),
                      sql_min (map f_year_from grp),
                      sql_max (map f_year_to grp),
                      group_concat_distinct (map f_engine grp)))
           (sort (distinct_first (map f_model rows))))"

text \<open>The two list comprehensions that turn the \<open>engines\<close> column into \<open>engine_list\<close>.\<close>

definition engine_list_of :: "string option \<Rightarrow> string list" where
  "engine_list_of engines =
     (let engine_list = (case engines of
                           None \<Rightarrow> []
                         | Some s \<Rightarrow> if s = [] then [] else split_char CHR '','' s)
      in [strip e. e \<leftarrow> engine_list, e \<noteq> [] \<and> e \<noteq> ''NULL''])"

text \<open>The \<open>year_start-year_end\<close> segment: present when both values are truthy.\<close>

definition year_segment :: "int option \<Rightarrow> int option \<Rightarrow> string" where
  "year_segment year_start year_end =
     (case (year_start, year_end) of
        (Some a, Some b) \<Rightarrow>
          if a \<noteq> 0 \<and> b \<noteq> 0 then '' '' @ show_int a @ ''-'' @ show_int b else ''''
      | _ \<Rightarrow> '''')"

text \<open>The engine segment: at most five engines, present when the list is not empty.\<close>

definition engine_segment :: "string list \<Rightarrow> string" where
  "engine_segment engine_list =
     (if engine_list \<noteq> [] then '' ('' @ join '', '' (take 5 engine_list) @ '')'' else '''')"

text \<open>The body of the loop over the groups: the text of one line, without its bullet.\<close>

definition fitment_line :: "fitment_group \<Rightarrow> string" where
  "fitment_line g =
     (case g of (model, variants, year_start, year_end, engines) \<Rightarrow>
        ''Volvo '' @ show_opt model
          @ year_segment year_start year_end
          @ engine_segment (engine_list_of engines))"

definition nl :: string where
  "nl = [CHR 0x0A]"

definition format_fitments :: "database \<Rightarrow> int \<Rightarrow> string" where
  "format_fitments db product_id =
     (let fitments = fitment_groups db product_id
      in if fitments = [] then ''''
         else join nl (''Passar till:'' # map (\<lambda>g. ''- '' @ fitment_line g) fitments))"

subsection \<open>\<open>format_alternative_names\<close>\<close>

text \<open>\<open>SELECT DISTINCT alternative_name, source_site ... LIMIT 20\<close>, the first ten rendered.\<close>

definition format_alternative_names :: "database \<Rightarrow> int \<Rightarrow> string" where
  "format_alternative_names db product_id =
     (let alts = take 20 (distinct_first
                   [(alternative_name a, source_site a).
                      a \<leftarrow> alternative_names db, a_product_id a = product_id])
      in if alts = [] then ''''
         else [CHR 0xC4] @ ''ven k'' @ [CHR 0xE4] @ ''nd som: ''
              @ join '', '' (map (\<lambda>(name, site). show_opt name @ '' ('' @ show_opt site @ '')'')
                               (take 10 alts)))"

subsection \<open>\<open>get_all_names\<close> and \<open>get_product_variants\<close>\<close>

text \<open>The first loop appends each truthy primary name; the second one skips names already collected.\<close>

definition append_if_truthy :: "string list \<Rightarrow> string option \<Rightarrow> string list" where
  "append_if_truthy names x = (if truthy x then names @ [the x] else names)"

definition append_if_new :: "string list \<Rightarrow> string option \<Rightarrow> string list" where
  "append_if_new names x =
     (if truthy x \<and> the x \<notin> set names then names @ [the x] else names)"

definition get_all_names :: "product \<Rightarrow> string list" where
  "get_all_names row =
     (let names = foldl append_if_truthy []
                    [normalized_name row, swedish_translation row, skandix_name_eng row];
          names = foldl append_if_new names
                    [kl_namn row, folkrace_namn row, vp_namn row, cvr_namn row, fordon_namn row]
      in [n \<leftarrow> names. n \<noteq> [] \<and> n \<noteq> ''NULL'' \<and> 3 < length n])"

text \<open>One dictionary of the list that \<open>get_product_variants\<close> returns.\<close>

record variant =
  v_id :: int
  v_skandix_product_id :: "string option"
  v_vp_artikelnummer :: "string option"
  v_normalized_name :: "string option"
  v_skandix_name_eng :: "string option"
  v_skandix_price :: "rat option"
  v_source :: "string option"

definition variant_of :: "product \<Rightarrow> variant" where
  "variant_of r =
     \<lparr> v_id = row_id r,
       v_skandix_product_id = skandix_product_id r,
       v_vp_artikelnummer = vp_artikelnummer r,
       v_normalized_name = normalized_name r,
       v_skandix_name_eng = skandix_name_eng r,
       v_skandix_price = skandix_price r,
       v_source = source r \<rparr>"

text \<open>
  \<open>WHERE oe_nummer = ? AND (has_fitments = 1 OR translation_status = 'verified')
  ORDER BY has_fitments DESC, skandix_price ASC\<close>; an ascending sort puts \<open>NULL\<close> prices first,
  and a \<open>NULL\<close> parameter matches no row.
\<close>

definition get_product_variants :: "database \<Rightarrow> string option \<Rightarrow> variant list" where
  "get_product_variants db oe =
     (case oe of
        None \<Rightarrow> []
      | Some num \<Rightarrow>
          map variant_of
            (sort_key (\<lambda>r. (\<not> has_fitments r, skandix_price r))
               [r \<leftarrow> products db. oe_nummer r = Some num \<and> eligible r]))"

subsection \<open>\<open>create_chunk\<close>\<close>

text \<open>\<open>a or b or ... or default\<close> on nullable strings.\<close>

fun first_truthy :: "string option list \<Rightarrow> string \<Rightarrow> string" where
  "first_truthy [] d = d"
| "first_truthy (x # xs) d = (if truthy x then the x else first_truthy xs d)"

text \<open>One numbered line of the variants section.\<close>

definition variant_line :: "nat \<Rightarrow> variant \<Rightarrow> string" where
  "variant_line i var =
     (let var_name = first_truthy [v_normalized_name var, v_skandix_name_eng var] ''Variant'';
          var_price = (if truthy_num (v_skandix_price var)
                       then fmt_2f (the (v_skandix_price var)) @ '' SEK''
                       else ''Pris saknas'');
          var_ids = (if truthy (v_skandix_product_id var)
                     then [''Skandix '' @ the (v_skandix_product_id var)] else [])
                    @ (if truthy (v_vp_artikelnummer var)
                       then [''VP '' @ the (v_vp_artikelnummer var)] else []);
          id_str = (if var_ids \<noteq> [] then '' ('' @ join '', '' var_ids @ '')'' else '''')
      in nl @ show_nat i @ ''. '' @ var_name @ '' - '' @ var_price @ id_str)"

definition variants_section :: "variant list \<Rightarrow> string" where
  "variants_section variants =
     (if 1 < length variants
      then nl @ nl @ ''TILLG'' @ [CHR 0xC4] @ ''NGLIGA VARIANTER:''
           @ concat (map (\<lambda>(i, var). variant_line i var)
                       (zip [1 ..< Suc (length variants)] variants))
      else '''')"

text \<open>\<open>prices = [v['skandix_price'] for v in variants if v['skandix_price']]\<close>\<close>

definition prices_of :: "variant list \<Rightarrow> rat list" where
  "prices_of variants = [the (v_skandix_price v). v \<leftarrow> variants, truthy_num (v_skandix_price v)]"

text \<open>The \<open>price\<close> text (the lowest price when there are several).\<close>

definition price_text :: "variant list \<Rightarrow> string" where
  "price_text variants =
     (let prices = prices_of variants
      in if prices \<noteq> [] then
           (if 1 < length prices
            then ''Fr'' @ [CHR 0xE5] @ ''n '' @ fmt_2f (Min (set prices))
                 @ '' SEK (finns '' @ show_nat (length variants) @ '' varianter)''
            else fmt_2f (hd prices) @ '' SEK'')
         else ''Pris saknas'')"

record metadata =
  md_product_id :: int
  md_oe_nummer :: "string option"
  md_part_system :: string
  md_price_from :: "rat option"
  md_price_to :: "rat option"
  md_variant_count :: nat
  md_variant_ids :: "int list"
  md_skandix_ids :: "string list"
  md_vp_ids :: "string list"
  md_has_fitments :: bool
  md_source :: "string option"
  md_verified :: bool

record chunk =
  title :: string
  content :: string
  metadata :: metadata

definition primary_name_of :: "product \<Rightarrow> string" where
  "primary_name_of row =
     first_truthy [normalized_name row, swedish_translation row, skandix_name_eng row]
       (''Ok'' @ [CHR 0xE4] @ ''nd produkt'')"

definition names_section_of :: "product \<Rightarrow> string" where
  "names_section_of row =
     (let all_names = get_all_names row
      in if all_names \<noteq> [] then join '' / '' (take 5 all_names) else primary_name_of row)"

definition system_of :: "product \<Rightarrow> string" where
  "system_of row = first_truthy [part_system row] (''allm'' @ [CHR 0xE4] @ ''nt'')"

text \<open>The list \<open>content_parts\<close> just before it is joined.\<close>

definition content_parts :: "product \<Rightarrow> string \<Rightarrow> string \<Rightarrow> variant list \<Rightarrow> string list" where
  "content_parts row fitments alt_names variants =
     (let oe_section = ''OE-nummer: '' @ show_opt (oe_nummer row)
                       @ (if truthy (vp_artikelnummer row)
                          then '', VP: '' @ the (vp_artikelnummer row) else '''')
      in [''PRODUKTNAMN: '' @ primary_name_of row,
          ''ALTERNATIVA NAMN: '' @ names_section_of row,
          ''OE-NUMMER: '' @ oe_section,
          ''SYSTEM: '' @ system_of row,
          ''PRIS: '' @ price_text variants]
         @ (if variants_section variants \<noteq> [] then [variants_section variants] else [])
         @ (if fitments \<noteq> [] then [nl @ fitments] else [])
         @ (if alt_names \<noteq> [] then [nl @ alt_names] else [])
         @ (if truthy (skandix_name_eng row)
               \<and> \<not> str_in (the (skandix_name_eng row)) (names_section_of row)
            then [nl @ ''Engelsk ben'' @ [CHR 0xE4] @ ''mning: '' @ the (skandix_name_eng row)]
            else []))"

definition metadata_of :: "product \<Rightarrow> variant list \<Rightarrow> metadata" where
  "metadata_of row variants =
     (let prices = prices_of variants
      in \<lparr> md_product_id = row_id row,
           md_oe_nummer = oe_nummer row,
           md_part_system = system_of row,
           md_price_from = (if prices \<noteq> [] then Some (Min (set prices)) else None),
           md_price_to = (if prices \<noteq> [] then Some (Max (set prices)) else None),
           md_variant_count = length variants,
           md_variant_ids = map v_id variants,
           md_skandix_ids = [the (v_skandix_product_id v).
                               v \<leftarrow> variants, truthy (v_skandix_product_id v)],
           md_vp_ids = [the (v_vp_artikelnummer v).
                          v \<leftarrow> variants, truthy (v_vp_artikelnummer v)],
           md_has_fitments = has_fitments row,
           md_source = source row,
           md_verified = (translation_status row = Some ''verified'') \<rparr>)"

definition create_chunk :: "database \<Rightarrow> product \<Rightarrow> string \<Rightarrow> string \<Rightarrow> chunk" where
  "create_chunk db row fitments alt_names =
     (let variants = get_product_variants db (oe_nummer row)
      in \<lparr> title = primary_name_of row,
           content = join nl (content_parts row fitments alt_names variants),
           metadata = metadata_of row variants \<rparr>)"

subsection \<open>The two remote services\<close>

text \<open>
  The embedding vectors are opaque to the script: \<open>'v\<close>. A chunk with its vector attached
  is a chunk with one more field; the record sent to the store has the six keys that
  \<open>insert_to_supabase\<close> writes.
\<close>

record 'v embedded_chunk = chunk +
  embedding :: 'v

record 'v kb_record =
  kb_title :: string
  kb_content :: string
  kb_embedding :: 'v
  kb_metadata :: metadata
  kb_source :: string
  kb_tokens :: nat

text \<open>
  The embedding service maps the list of texts of one request to \<open>response.data\<close>, or to
  \<open>None\<close> when the request raises; the store maps the records of one bulk insert to
  \<open>result.data\<close>, which may be absent (\<open>None\<close>) or empty.
\<close>

type_synonym 'v embedding_api = "string list \<Rightarrow> 'v list option"

type_synonym 'v store_api = "'v kb_record list \<Rightarrow> 'v kb_record list option"

text \<open>What the run has sent to the two services so far, one entry per call.\<close>

record 'v world =
  embedding_requests :: "string list list"
  store_inserts :: "'v kb_record list list"

datatype error = EmbeddingRequestFailed | IndexError | InsertFailed | ZeroDivisionError

definition BATCH_SIZE :: nat where
  "BATCH_SIZE = 100"

subsection \<open>\<open>generate_embeddings\<close> and \<open>insert_to_supabase\<close>\<close>

definition attach :: "chunk \<Rightarrow> 'v \<Rightarrow> 'v embedded_chunk" where
  "attach c v = chunk.extend c (embedded_chunk.fields v)"

text \<open>
  One request with the contents of all chunks, in order; then \<open>response.data[i]\<close> is
  attached to chunk \<open>i\<close>, which raises when the response is too short.
\<close>

definition generate_embeddings ::
  "'v embedding_api \<Rightarrow> chunk list \<Rightarrow> 'v world \<Rightarrow> (error + 'v embedded_chunk list) \<times> 'v world" where
  "generate_embeddings api chunks w =
     (let texts = map content chunks;
          w' = w\<lparr>embedding_requests := embedding_requests w @ [texts]\<rparr>
      in case api texts of
           None \<Rightarrow> (Inl EmbeddingRequestFailed, w')
         | Some data \<Rightarrow>
             if length data < length chunks then (Inl IndexError, w')
             else (Inr (map (\<lambda>(c, v). attach c v) (zip chunks data)), w'))"

definition record_of :: "'v embedded_chunk \<Rightarrow> 'v kb_record" where
  "record_of c =
     \<lparr> kb_title = title c,
       kb_content = content c,
       kb_embedding = embedding c,
       kb_metadata = metadata c,
       kb_source = ''volvo_sqlite'',
       kb_tokens = length (content c) div 4 \<rparr>"

definition insert_to_supabase ::
  "'v store_api \<Rightarrow> 'v embedded_chunk list \<Rightarrow> 'v world \<Rightarrow> (error + nat) \<times> 'v world" where
  "insert_to_supabase store chunks w =
     (let records = map record_of chunks;
          w' = w\<lparr>store_inserts := store_inserts w @ [records]\<rparr>
      in case store records of
           None \<Rightarrow> (Inl InsertFailed, w')
         | Some data \<Rightarrow> if data = [] then (Inl InsertFailed, w') else (Inr (length data), w'))"

subsection \<open>The processing loop of \<open>import_products\<close>\<close>

record 'v run_state =
  batch_chunks :: "chunk list"
  processed :: nat
  inserted :: nat
  world :: "'v world"

definition initial_state :: "'v run_state" where
  "initial_state =
     \<lparr> batch_chunks = [], processed = 0, inserted = 0,
       world = \<lparr> embedding_requests = [], store_inserts = [] \<rparr> \<rparr>"

text \<open>
  Embedding and inserting the current batch; an exception ends the run, and what was sent
  before it stays sent. The result keeps \<open>batch_chunks\<close> as it is: the loop resets it, the
  final flush does not.
\<close>

definition flush ::
  "'v embedding_api \<Rightarrow> 'v store_api \<Rightarrow> 'v run_state \<Rightarrow> (error \<times> 'v world) + 'v run_state" where
  "flush api store st =
     (case generate_embeddings api (batch_chunks st) (world st) of
        (Inl e, w) \<Rightarrow> Inl (e, w)
      | (Inr chunks_with_embeddings, w) \<Rightarrow>
          (case insert_to_supabase store chunks_with_embeddings w of
             (Inl e, w') \<Rightarrow> Inl (e, w')
           | (Inr count, w') \<Rightarrow> Inr (st\<lparr>inserted := inserted st + count, world := w'\<rparr>)))"

text \<open>The loop body for one row of the cursor.\<close>

definition process_row ::
  "database \<Rightarrow> 'v embedding_api \<Rightarrow> 'v store_api \<Rightarrow> 'v run_state \<Rightarrow> product
     \<Rightarrow> (error \<times> 'v world) + 'v run_state" where
  "process_row db api store st row =
     (let fitments = format_fitments db (row_id row);
          alt_names = format_alternative_names db (row_id row);
          chunk = create_chunk db row fitments alt_names;
          st1 = st\<lparr>batch_chunks := batch_chunks st @ [chunk], processed := processed st + 1\<rparr>
      in if BATCH_SIZE \<le> length (batch_chunks st1)
         then (case flush api store st1 of
                 Inl e \<Rightarrow> Inl e
               | Inr st2 \<Rightarrow> Inr (st2\<lparr>batch_chunks := []\<rparr>))
         else Inr st1)"

fun process_rows ::
  "database \<Rightarrow> 'v embedding_api \<Rightarrow> 'v store_api \<Rightarrow> 'v run_state \<Rightarrow> product list
     \<Rightarrow> (error \<times> 'v world) + 'v run_state" where
  "process_rows db api store st [] = Inr st"
| "process_rows db api store st (row # rows) =
     (case process_row db api store st row of
        Inl e \<Rightarrow> Inl e
      | Inr st' \<Rightarrow> process_rows db api store st' rows)"

text \<open>\<open>if batch_chunks:\<close> after the loop.\<close>

definition final_flush ::
  "'v embedding_api \<Rightarrow> 'v store_api \<Rightarrow> 'v run_state \<Rightarrow> (error \<times> 'v world) + 'v run_state" where
  "final_flush api store st = (if batch_chunks st \<noteq> [] then flush api store st else Inr st)"

subsection \<open>The summary and the cost estimate\<close>

text \<open>
  The summary keeps the integer figures of the run: the two counters and the total-token
  figure of line 407, which is computed with integer arithmetic only. The success rate
  \<open>inserted / processed * 100\<close> and the cost \<open>total_tokens / 1_000_000 * 0.02\<close> are
  floating-point values that are printed and never used again; they are not part of the
  model, except that the division of the success rate raises when no row was processed.
\<close>

definition total_tokens_of :: "'v run_state \<Rightarrow> nat" where
  "total_tokens_of st =
     (if batch_chunks st \<noteq> []
      then sum_list (map (\<lambda>c. length (content c) div 4) (batch_chunks st)) * processed st
             div length (batch_chunks st)
      else 0)"

record 'v report =
  rep_processed :: nat
  rep_inserted :: nat
  rep_total_tokens :: nat
  rep_world :: "'v world"

definition summary :: "'v run_state \<Rightarrow> (error \<times> 'v world) + 'v report" where
  "summary st =
     (if processed st = 0 then Inl (ZeroDivisionError, world st)
      else Inr \<lparr> rep_processed = processed st,
                 rep_inserted = inserted st,
                 rep_total_tokens = total_tokens_of st,
                 rep_world = world st \<rparr>)"

definition import_products ::
  "database \<Rightarrow> 'v embedding_api \<Rightarrow> 'v store_api \<Rightarrow> (error \<times> 'v world) + 'v report" where
  "import_products db api store =
     (let rows = canonical_rows (products db) (total_products (products db))
      in case process_rows db api store initial_state rows of
           Inl e \<Rightarrow> Inl e
         | Inr st \<Rightarrow>
             (case final_flush api store st of
                Inl e \<Rightarrow> Inl e
              | Inr st' \<Rightarrow> summary st'))"

subsection \<open>Derived notions used in the properties\<close>

text \<open>The chunk that the loop body creates for a row (the first three lines of the body).\<close>

definition build_chunk :: "database \<Rightarrow> product \<Rightarrow> chunk" where
  "build_chunk db row =
     create_chunk db row (format_fitments db (row_id row))
       (format_alternative_names db (row_id row))"

text \<open>The state after appending chunks to the batch without any flush.\<close>

definition add_chunks :: "'v run_state \<Rightarrow> chunk list \<Rightarrow> 'v run_state" where
  "add_chunks st cs =
     st\<lparr>batch_chunks := batch_chunks st @ cs, processed := processed st + length cs\<rparr>"

text \<open>The store record of a chunk whose vector is computed from its own text by \<open>emb\<close>.\<close>

definition embedded_record :: "(string \<Rightarrow> 'v) \<Rightarrow> chunk \<Rightarrow> 'v kb_record" where
  "embedded_record emb c = record_of (attach c (emb (content c)))"

text \<open>What the run has sent to the two services, whether it ended with a report or an error.\<close>

definition world_of :: "(error \<times> 'v world) + 'v report \<Rightarrow> 'v world" where
  "world_of res = (case res of Inl (e, w) \<Rightarrow> w | Inr rep \<Rightarrow> rep_world rep)"

text \<open>The world after the embedding request for the current batch, and after its insert.\<close>

definition after_request :: "'v run_state \<Rightarrow> 'v world" where
  "after_request st =
     (world st)\<lparr>embedding_requests :=
                  embedding_requests (world st) @ [map content (batch_chunks st)]\<rparr>"

definition after_insert :: "'v run_state \<Rightarrow> 'v embedded_chunk list \<Rightarrow> 'v world" where
  "after_insert st ecs =
     (after_request st)\<lparr>store_inserts := store_inserts (world st) @ [map record_of ecs]\<rparr>"

text \<open>The store rejected a bulk insert: \<open>result.data\<close> is absent or empty.\<close>

definition rejected :: "'v store_api \<Rightarrow> 'v kb_record list \<Rightarrow> bool" where
  "rejected store recs = (store recs = None \<or> store recs = Some [])"

text \<open>The batch with the vectors of a response attached by position.\<close>

definition attached :: "chunk list \<Rightarrow> 'v list \<Rightarrow> 'v embedded_chunk list" where
  "attached chunks data = map (\<lambda>(c, v). attach c v) (zip chunks data)"










subsection \<open>Example data\<close>

definition blank_variant :: variant where
  "blank_variant =
     \<lparr> v_id = 0, v_skandix_product_id = None, v_vp_artikelnummer = None,
       v_normalized_name = None, v_skandix_name_eng = None, v_skandix_price = None,
       v_source = None \<rparr>"

definition priced :: "int \<Rightarrow> rat \<Rightarrow> variant" where
  "priced i p = blank_variant\<lparr>v_id := i, v_skandix_price := Some p\<rparr>"

definition unpriced :: "int \<Rightarrow> variant" where
  "unpriced i = blank_variant\<lparr>v_id := i\<rparr>"

definition blank_product :: product where
  "blank_product =
     \<lparr> row_id = 0, oe_nummer = None, normalized_name = None, swedish_translation = None,
       skandix_name_eng = None, kl_namn = None, folkrace_namn = None, vp_namn = None,
       cvr_namn = None, fordon_namn = None, vp_artikelnummer = None,
       skandix_product_id = None, part_system = None, skandix_price = None, source = None,
       has_fitments = False, translation_status = None \<rparr>"

text \<open>A product with fitments and a price, alone in its part-number group.\<close>

definition brake_disc :: product where
  "brake_disc = blank_product\<lparr>row_id := 1, oe_nummer := Some ''1205680'',
     normalized_name := Some ''Bromsskiva'', skandix_price := Some (399 / 2),
     has_fitments := True\<rparr>"

definition one_product_db :: database where
  "one_product_db =
     \<lparr> products = [brake_disc], expanded_fitments = [], alternative_names = [] \<rparr>"

text \<open>An embedding service whose vector for a text is the length of the text.\<close>

definition length_api :: "nat embedding_api" where
  "length_api texts = Some (map length texts)"

text \<open>A store that returns the inserted rows, and one that returns an empty result.\<close>

definition echo_store :: "nat store_api" where
  "echo_store recs = Some recs"

definition empty_store :: "nat store_api" where
  "empty_store recs = Some []"

text \<open>Two more rows of the brake disc's part number, one of them without a price.\<close>

definition disc_premium :: product where
  "disc_premium = brake_disc\<lparr>row_id := 2, skandix_price := Some 250\<rparr>"

definition disc_unpriced :: product where
  "disc_unpriced = brake_disc\<lparr>row_id := 3, skandix_price := None\<rparr>"

definition three_variant_db :: database where
  "three_variant_db =
     \<lparr> products = [brake_disc, disc_premium, disc_unpriced],
       expanded_fitments = [], alternative_names = [] \<rparr>"

text \<open>A row without fitments and without a verified translation, alone in its group.\<close>

definition unlisted_part :: product where
  "unlisted_part = blank_product\<lparr>row_id := 2, oe_nummer := Some ''9999'',
     normalized_name := Some ''Packning'', skandix_price := Some 25\<rparr>"

definition two_group_db :: database where
  "two_group_db =
     \<lparr> products = [brake_disc, unlisted_part],
       expanded_fitments = [], alternative_names = [] \<rparr>"

text \<open>
  A table of \<open>n\<close> products, each with fitments and alone in its part-number group; the part
  number of row \<open>i\<close> is a run of \<open>i + 1\<close> digits.
\<close>

definition numbered_product :: "nat \<Rightarrow> product" where
  "numbered_product i =
     blank_product\<lparr>row_id := int i, oe_nummer := Some (replicate (Suc i) CHR ''1''),
       has_fitments := True\<rparr>"

definition numbered_db :: "nat \<Rightarrow> database" where
  "numbered_db n =
     \<lparr> products = map numbered_product [0 ..< n],
       expanded_fitments = [], alternative_names = [] \<rparr>"




section \<open>Properties\<close>

subsection \<open>Fitment lines\<close>





subsection \<open>The price summary\<close>



lemma price_text_many:
  "1 < length (prices_of variants) \<Longrightarrow>
     price_text variants =
       ''Fr'' @ [CHR 0xE5] @ ''n '' @ fmt_2f (Min (set (prices_of variants)))
         @ '' SEK (finns '' @ show_nat (length variants) @ '' varianter)''"
  by (auto simp: price_text_def Let_def)




lemma prices_three: "prices_of [priced 1 100, priced 2 150, unpriced 3] = [100, 150]"
  by (simp add: prices_of_def priced_def unpriced_def blank_variant_def truthy_num_def)

lemma fmt_examples: "fmt_2f 100 = ''100.00''" "fmt_2f (399 / 2) = ''199.50''"
  by (simp_all add: fmt_2f_def round_half_even_def Let_def show_nat.simps digit_char_def)

lemma show_nat_examples:
  "show_nat (Suc (Suc 0)) = ''2''" "show_nat (Suc (Suc (Suc 0))) = ''3''"
  by (simp_all add: show_nat.simps digit_char_def)



lemma prices_le: "length (prices_of variants) \<le> length variants"
  by (induction variants) (auto simp: prices_of_def)

lemma length_variants:
  "length (get_product_variants db (Some num))
     = length [r \<leftarrow> products db. oe_nummer r = Some num \<and> eligible r]"
  by (simp add: get_product_variants_def)

text \<open>
  Claim C10. When more than one variant of a part-number group has a known price, the
  count N printed in \<open>Fran min SEK (finns N varianter)\<close> is the number of all eligible
  variants of the group, priced or not, so N can be strictly larger than the number of
  priced variants: two priced variants and one without a price print N = 3.
\<close>

theorem variant_count_includes_unpriced:
  "(1 < length (prices_of (get_product_variants db (Some num))) \<longrightarrow>
      price_text (get_product_variants db (Some num)) =
        ''Fr'' @ [CHR 0xE5] @ ''n ''
          @ fmt_2f (Min (set (prices_of (get_product_variants db (Some num)))))
          @ '' SEK (finns ''
          @ show_nat (length [r \<leftarrow> products db. oe_nummer r = Some num \<and> eligible r])
          @ '' varianter)'')
   \<and> length (prices_of variants) \<le> length variants
   \<and> length (prices_of [priced 1 100, priced 2 150, unpriced 3]) = 2
   \<and> length [priced 1 100, priced 2 150, unpriced 3] = 3
   \<and> price_text [priced 1 100, priced 2 150, unpriced 3]
        = ''Fr'' @ [CHR 0xE5] @ ''n 100.00 SEK (finns 3 varianter)''"
proof -
  have "price_text [priced 1 100, priced 2 150, unpriced 3]
        = ''Fr'' @ [CHR 0xE5] @ ''n 100.00 SEK (finns 3 varianter)''"
    using price_text_many [of "[priced 1 100, priced 2 150, unpriced 3]"]
    by (simp add: prices_three fmt_examples show_nat_examples)
  then show ?thesis
    using price_text_many [of "get_product_variants db (Some num)"]
    by (simp add: prices_le prices_three length_variants)
qed

subsection \<open>Chunk metadata\<close>

lemma canonical_rows_mem:
  assumes "r \<in> set (canonical_rows tbl limit)"
  shows "r \<in> set tbl" "eligible r" "row_id r \<in> set (representative_ids tbl)"
  using assms by (auto simp: canonical_rows_def dest!: in_set_takeD)






lemma brake_disc_canonical: "canonical_rows [brake_disc] (Suc n) = [brake_disc]"
  by (simp add: canonical_rows_def representative_ids_def best_id_def group_ranked_def
      brake_disc_def blank_product_def eligible_def)



subsection \<open>The processing loop\<close>

lemma embedded_record_fun:
  "embedded_record emb = (\<lambda>c. record_of (attach c (emb (content c))))"
  by (rule ext) (simp add: embedded_record_def)

lemma process_row_eq:
  "process_row db api store st row =
     (if BATCH_SIZE \<le> Suc (length (batch_chunks st))
      then (case flush api store (add_chunks st [build_chunk db row]) of
              Inl e \<Rightarrow> Inl e
            | Inr st2 \<Rightarrow> Inr (st2\<lparr>batch_chunks := []\<rparr>))
      else Inr (add_chunks st [build_chunk db row]))"
  by (simp add: process_row_def build_chunk_def add_chunks_def Let_def)

lemma add_chunks_append: "add_chunks (add_chunks st xs) ys = add_chunks st (xs @ ys)"
  by (simp add: add_chunks_def)

lemma add_chunks_Nil: "add_chunks st [] = st"
  by (simp add: add_chunks_def)

lemma process_rows_append:
  "process_rows db api store st (xs @ ys) =
     (case process_rows db api store st xs of
        Inl e \<Rightarrow> Inl e
      | Inr st' \<Rightarrow> process_rows db api store st' ys)"
  by (induction xs arbitrary: st) (auto split: sum.splits)

lemma process_rows_short:
  "length (batch_chunks st) + length rows < BATCH_SIZE \<Longrightarrow>
     process_rows db api store st rows = Inr (add_chunks st (map (build_chunk db) rows))"
proof (induction rows arbitrary: st)
  case Nil
  then show ?case by (simp add: add_chunks_Nil)
next
  case (Cons row rows)
  have "length (batch_chunks (add_chunks st [build_chunk db row])) + length rows < BATCH_SIZE"
    using Cons.prems by (simp add: add_chunks_def)
  from Cons.IH [OF this] Cons.prems show ?case
    by (simp add: process_row_eq add_chunks_append)
qed

lemma process_rows_fill:
  assumes "length (batch_chunks st) + length rows = BATCH_SIZE" and "rows \<noteq> []"
  shows "process_rows db api store st rows =
           (case flush api store (add_chunks st (map (build_chunk db) rows)) of
              Inl e \<Rightarrow> Inl e
            | Inr st2 \<Rightarrow> Inr (st2\<lparr>batch_chunks := []\<rparr>))"
proof -
  from assms(2) obtain xs x where rows: "rows = xs @ [x]"
    by (metis rev_exhaust)
  have short: "length (batch_chunks st) + length xs < BATCH_SIZE"
    using assms(1) rows by simp
  have len: "BATCH_SIZE \<le> Suc (length (batch_chunks (add_chunks st (map (build_chunk db) xs))))"
    using assms(1) rows by (simp add: add_chunks_def)
  show ?thesis
    unfolding rows process_rows_append process_rows_short [OF short]
    using len by (simp add: process_row_eq add_chunks_append split: sum.splits)
qed

lemma attach_fields [simp]:
  "title (attach c v) = title c" "content (attach c v) = content c"
  "metadata (attach c v) = metadata c" "embedding (attach c v) = v"
  by (simp_all add: attach_def chunk.extend_def embedded_chunk.fields_def chunk.defs)

lemma attach_pointwise:
  "map (\<lambda>(c, v). attach c v) (zip cs (map f cs)) = map (\<lambda>c. attach c (f c)) cs"
  by (induction cs) auto

lemma generate_embeddings_ok:
  assumes "api (map content chunks) = Some (map emb (map content chunks))"
  shows "generate_embeddings api chunks w =
           (Inr (map (\<lambda>c. attach c (emb (content c))) chunks),
            w\<lparr>embedding_requests := embedding_requests w @ [map content chunks]\<rparr>)"
  using assms by (simp add: generate_embeddings_def Let_def attach_pointwise)

lemma insert_ok:
  assumes "store (map record_of chunks) = Some d" "d \<noteq> []"
  shows "insert_to_supabase store chunks w =
           (Inr (length d), w\<lparr>store_inserts := store_inserts w @ [map record_of chunks]\<rparr>)"
  using assms by (simp add: insert_to_supabase_def Let_def)

lemma flush_ok:
  assumes api: "\<forall>texts. api texts = Some (map emb texts)"
    and store: "\<forall>recs. recs \<noteq> [] \<longrightarrow> (\<exists>d. store recs = Some d \<and> d \<noteq> [])"
    and ne: "batch_chunks st \<noteq> []"
  shows "\<exists>n. flush api store st =
           Inr (st\<lparr>inserted := n,
                  world := (world st)\<lparr>
                    embedding_requests :=
                      embedding_requests (world st) @ [map content (batch_chunks st)],
                    store_inserts :=
                      store_inserts (world st) @ [map (embedded_record emb) (batch_chunks st)]\<rparr>\<rparr>)"
proof -
  let ?ecs = "map (\<lambda>c. attach c (emb (content c))) (batch_chunks st)"
  have "map record_of ?ecs \<noteq> []" using ne by simp
  with store obtain d where d: "store (map record_of ?ecs) = Some d" "d \<noteq> []"
    by blast
  have g: "api (map content (batch_chunks st)) = Some (map emb (map content (batch_chunks st)))"
    using api by simp
  show ?thesis
    unfolding flush_def generate_embeddings_ok [of api "batch_chunks st" emb, OF g]
    by (intro exI [of _ "inserted st + length d"])
      (simp add: insert_ok [of store "?ecs" d, OF d] embedded_record_fun comp_def)
qed


lemma generate_embeddings_world:
  "snd (generate_embeddings api chunks w)
     = w\<lparr>embedding_requests := embedding_requests w @ [map content chunks]\<rparr>"
  by (simp add: generate_embeddings_def Let_def split: option.splits)

lemma generate_embeddings_Inr:
  assumes "generate_embeddings api chunks w = (Inr ecs, w')"
  shows "\<exists>data. api (map content chunks) = Some data \<and> length chunks \<le> length data
           \<and> ecs = map (\<lambda>(c, v). attach c v) (zip chunks data)"
  using assms by (auto simp: generate_embeddings_def Let_def split: option.splits if_splits)

lemma insert_world:
  "snd (insert_to_supabase store chunks w)
     = w\<lparr>store_inserts := store_inserts w @ [map record_of chunks]\<rparr>"
  by (simp add: insert_to_supabase_def Let_def split: option.splits)

lemma insert_result:
  "fst (insert_to_supabase store chunks w) =
     (case store (map record_of chunks) of
        None \<Rightarrow> Inl InsertFailed
      | Some d \<Rightarrow> if d = [] then Inl InsertFailed else Inr (length d))"
  by (simp add: insert_to_supabase_def Let_def split: option.splits)

lemma flush_insert_failed:
  assumes g: "generate_embeddings api (batch_chunks st) (world st) = (Inr ecs, w1)"
    and f: "store (map record_of ecs) = None \<or> store (map record_of ecs) = Some []"
  shows "flush api store st =
           Inl (InsertFailed, w1\<lparr>store_inserts := store_inserts w1 @ [map record_of ecs]\<rparr>)"
  using f by (auto simp: flush_def g insert_to_supabase_def Let_def)

lemma flush_Inr:
  assumes "flush api store st = Inr st'"
  shows "batch_chunks st' = batch_chunks st" "processed st' = processed st"
    "\<exists>ecs. length ecs = length (batch_chunks st)
        \<and> (\<forall>i < length ecs. content (ecs ! i) = content (batch_chunks st ! i)
               \<and> metadata (ecs ! i) = metadata (batch_chunks st ! i)
               \<and> title (ecs ! i) = title (batch_chunks st ! i))
        \<and> embedding_requests (world st')
             = embedding_requests (world st) @ [map content (batch_chunks st)]
        \<and> store_inserts (world st') = store_inserts (world st) @ [map record_of ecs]"
proof -
  from assms obtain ecs w1 cnt w2 where
    g: "generate_embeddings api (batch_chunks st) (world st) = (Inr ecs, w1)" and
    i: "insert_to_supabase store ecs w1 = (Inr cnt, w2)" and
    st': "st' = st\<lparr>inserted := inserted st + cnt, world := w2\<rparr>"
    by (auto simp: flush_def split: prod.splits sum.splits)
  from st' show "batch_chunks st' = batch_chunks st" "processed st' = processed st"
    by simp_all
  from generate_embeddings_Inr [OF g] obtain data where
    d: "length (batch_chunks st) \<le> length data"
       "ecs = map (\<lambda>(c, v). attach c v) (zip (batch_chunks st) data)"
    by blast
  have w1: "w1 = (world st)\<lparr>embedding_requests :=
                  embedding_requests (world st) @ [map content (batch_chunks st)]\<rparr>"
    using generate_embeddings_world [of api "batch_chunks st" "world st"] g by simp
  have w2: "w2 = w1\<lparr>store_inserts := store_inserts w1 @ [map record_of ecs]\<rparr>"
    using insert_world [of store ecs w1] i by simp
  show "\<exists>ecs. length ecs = length (batch_chunks st)
        \<and> (\<forall>i < length ecs. content (ecs ! i) = content (batch_chunks st ! i)
               \<and> metadata (ecs ! i) = metadata (batch_chunks st ! i)
               \<and> title (ecs ! i) = title (batch_chunks st ! i))
        \<and> embedding_requests (world st')
             = embedding_requests (world st) @ [map content (batch_chunks st)]
        \<and> store_inserts (world st') = store_inserts (world st) @ [map record_of ecs]"
    using d by (intro exI [of _ ecs]) (simp add: st' w1 w2)
qed

lemma flush_Inl:
  assumes "flush api store st = Inl (e, w)"
  shows "\<exists>more. store_inserts w = store_inserts (world st) @ more"
proof (cases "generate_embeddings api (batch_chunks st) (world st)")
  case (Pair res w1)
  have "w1 = (world st)\<lparr>embedding_requests :=
                  embedding_requests (world st) @ [map content (batch_chunks st)]\<rparr>"
    using generate_embeddings_world [of api "batch_chunks st" "world st"] Pair by simp
  then have w1: "store_inserts w1 = store_inserts (world st)"
    by simp
  show ?thesis
  proof (cases res)
    case (Inl e1)
    with assms Pair have "w = w1" by (simp add: flush_def)
    with w1 show ?thesis by simp
  next
    case (Inr ecs)
    obtain r2 w2 where i: "insert_to_supabase store ecs w1 = (r2, w2)"
      by (cases "insert_to_supabase store ecs w1")
    have w2: "w2 = w1\<lparr>store_inserts := store_inserts w1 @ [map record_of ecs]\<rparr>"
      using insert_world [of store ecs w1] i by simp
    from assms Pair Inr i have "w = w2"
      by (cases r2) (simp_all add: flush_def)
    then show ?thesis by (simp add: w2 w1)
  qed
qed

lemma flush_cases:
  "(\<exists>e. e \<noteq> InsertFailed \<and> flush api store st = Inl (e, after_request st))
   \<or> (\<exists>data. api (map content (batch_chunks st)) = Some data
          \<and> length (batch_chunks st) \<le> length data
          \<and> rejected store (map record_of (attached (batch_chunks st) data))
          \<and> flush api store st
                = Inl (InsertFailed, after_insert st (attached (batch_chunks st) data)))
   \<or> (\<exists>data d. api (map content (batch_chunks st)) = Some data
          \<and> length (batch_chunks st) \<le> length data
          \<and> store (map record_of (attached (batch_chunks st) data)) = Some d \<and> d \<noteq> []
          \<and> flush api store st
                = Inr (st\<lparr>inserted := inserted st + length d,
                          world := after_insert st (attached (batch_chunks st) data)\<rparr>))"
proof (cases "api (map content (batch_chunks st))")
  case None
  then have "flush api store st = Inl (EmbeddingRequestFailed, after_request st)"
    by (simp add: flush_def generate_embeddings_def after_request_def Let_def)
  then show ?thesis by simp
next
  case (Some data)
  show ?thesis
  proof (cases "length data < length (batch_chunks st)")
    case True
    with Some have "flush api store st = Inl (IndexError, after_request st)"
      by (simp add: flush_def generate_embeddings_def after_request_def Let_def)
    then show ?thesis by simp
  next
    case False
    with Some have g: "generate_embeddings api (batch_chunks st) (world st)
        = (Inr (attached (batch_chunks st) data), after_request st)"
      by (simp add: generate_embeddings_def after_request_def attached_def Let_def)
    let ?recs = "map record_of (attached (batch_chunks st) data)"
    show ?thesis
    proof (cases "rejected store ?recs")
      case True
      then have "flush api store st
          = Inl (InsertFailed, after_insert st (attached (batch_chunks st) data))"
        by (auto simp: flush_def g insert_to_supabase_def after_insert_def after_request_def
            rejected_def Let_def)
      with Some False True show ?thesis by simp
    next
      case no: False
      then obtain d where d: "store ?recs = Some d" "d \<noteq> []"
        by (auto simp: rejected_def)
      then have "flush api store st
          = Inr (st\<lparr>inserted := inserted st + length d,
                    world := after_insert st (attached (batch_chunks st) data)\<rparr>)"
        by (simp add: flush_def g insert_to_supabase_def after_insert_def after_request_def
            Let_def)
      with Some False d show ?thesis by simp
    qed
  qed
qed

lemma attached_length: "length cs \<le> length data \<Longrightarrow> length (attached cs data) = length cs"
  by (simp add: attached_def)

lemma attached_nth:
  "i < length cs \<Longrightarrow> length cs \<le> length data \<Longrightarrow> attached cs data ! i = attach (cs ! i) (data ! i)"
  by (simp add: attached_def)

lemma attached_set:
  "ec \<in> set (attached cs data) \<Longrightarrow> \<exists>c \<in> set cs. \<exists>v. ec = attach c v"
  by (auto simp: attached_def dest: set_zip_leftD)

lemma record_of_fields:
  "kb_source (record_of ec) = ''volvo_sqlite''"
  "kb_tokens (record_of ec) = length (kb_content (record_of ec)) div 4"
  "kb_content (record_of ec) = content ec"
  "kb_title (record_of ec) = title ec"
  "kb_metadata (record_of ec) = metadata ec"
  "kb_embedding (record_of ec) = embedding ec"
  by (simp_all add: record_of_def)

text \<open>
  An invariant \<open>J\<close> of the loop state that survives appending a row and a successful flush
  holds when the loop ends; when a flush raises, the postcondition \<open>E\<close> of the failed
  flush holds for the error and the world it leaves behind.
\<close>

lemma process_rows_invariant:
  assumes add: "\<And>st row. row \<in> set rows \<Longrightarrow> J st \<Longrightarrow> J (add_chunks st [build_chunk db row])"
    and ok: "\<And>st st'. J st \<Longrightarrow> flush api store st = Inr st' \<Longrightarrow> J (st'\<lparr>batch_chunks := []\<rparr>)"
    and err: "\<And>st x. J st \<Longrightarrow> flush api store st = Inl x \<Longrightarrow> E x"
    and start: "J st"
  shows "case process_rows db api store st rows of Inl x \<Rightarrow> E x | Inr st' \<Rightarrow> J st'"
  using add start
proof (induction rows arbitrary: st)
  case Nil
  then show ?case by simp
next
  case (Cons row rows)
  let ?st1 = "add_chunks st [build_chunk db row]"
  have j1: "J ?st1" using Cons.prems by simp
  show ?case
  proof (cases "BATCH_SIZE \<le> Suc (length (batch_chunks st))")
    case False
    then have "process_rows db api store st (row # rows) = process_rows db api store ?st1 rows"
      by (simp add: process_row_eq)
    with Cons.IH [of ?st1] Cons.prems(1) j1 show ?thesis by simp
  next
    case True
    show ?thesis
    proof (cases "flush api store ?st1")
      case (Inl x)
      with True err [OF j1] show ?thesis by (simp add: process_row_eq)
    next
      case (Inr st2)
      with True have "process_rows db api store st (row # rows)
          = process_rows db api store (st2\<lparr>batch_chunks := []\<rparr>) rows"
        by (simp add: process_row_eq)
      with Cons.IH [of "st2\<lparr>batch_chunks := []\<rparr>"] Cons.prems(1) ok [OF j1 Inr]
      show ?thesis by simp
    qed
  qed
qed

lemma import_products_invariant:
  assumes add: "\<And>st row. row \<in> set (canonical_rows (products db) (total_products (products db)))
                  \<Longrightarrow> J st \<Longrightarrow> J (add_chunks st [build_chunk db row])"
    and ok: "\<And>st st'. J st \<Longrightarrow> flush api store st = Inr st'
                  \<Longrightarrow> J st' \<and> J (st'\<lparr>batch_chunks := []\<rparr>)"
    and err: "\<And>st x. J st \<Longrightarrow> flush api store st = Inl x \<Longrightarrow> E x"
    and zero: "\<And>st. J st \<Longrightarrow> E (ZeroDivisionError, world st)"
    and start: "J (initial_state :: 'v run_state)"
  shows "case import_products db api store of
           Inl x \<Rightarrow> E x
         | Inr rep \<Rightarrow> (\<exists>st :: 'v run_state. J st \<and> rep_world rep = world st)"
proof -
  let ?rows = "canonical_rows (products db) (total_products (products db))"
  have loop: "case process_rows db api store initial_state ?rows of
                Inl x \<Rightarrow> E x | Inr st' \<Rightarrow> J st'"
    by (rule process_rows_invariant [where J = J and E = E, OF add _ err start])
       (use ok in blast)+
  show ?thesis
  proof (cases "process_rows db api store initial_state ?rows")
    case (Inl x)
    with loop show ?thesis by (simp add: import_products_def)
  next
    case (Inr st1)
    with loop have j1: "J st1" by simp
    show ?thesis
    proof (cases "final_flush api store st1")
      case (Inl x)
      then have "E x" using err [OF j1] by (auto simp: final_flush_def split: if_splits)
      with Inl Inr show ?thesis by (simp add: import_products_def)
    next
      case st2: (Inr st2)
      then have j2: "J st2" using ok [OF j1] j1 by (auto simp: final_flush_def split: if_splits)
      show ?thesis
      proof (cases "processed st2 = 0")
        case True
        with Inr st2 zero [OF j2] show ?thesis
          by (simp add: import_products_def summary_def)
      next
        case False
        with Inr st2 j2 show ?thesis
          by (auto simp: import_products_def summary_def)
      qed
    qed
  qed
qed

subsection \<open>The sink write\<close>

lemma after_request_inserts [simp]: "store_inserts (after_request st) = store_inserts (world st)"
  by (simp add: after_request_def)

lemma after_insert_inserts [simp]:
  "store_inserts (after_insert st ecs) = store_inserts (world st) @ [map record_of ecs]"
  by (simp add: after_insert_def)

lemma add_chunks_world [simp]: "world (add_chunks st cs) = world st"
  by (simp add: add_chunks_def)

lemma insert_failed_iff:
  "fst (insert_to_supabase store chunks w) = Inl InsertFailed
     \<longleftrightarrow> rejected store (map record_of chunks)"
  by (auto simp: insert_result rejected_def split: option.splits)

lemma sink_invariant:
  fixes store :: "'v store_api"
  defines "tagged \<equiv> \<lambda>rec :: 'v kb_record.
             kb_source rec = ''volvo_sqlite'' \<and> kb_tokens rec = length (kb_content rec) div 4"
  defines "J \<equiv> \<lambda>st :: 'v run_state. \<forall>b \<in> set (store_inserts (world st)).
             \<not> rejected store b \<and> (\<forall>rec \<in> set b. tagged rec)"
  defines "E \<equiv> \<lambda>(e, w :: 'v world).
             (\<forall>b \<in> set (store_inserts w). \<forall>rec \<in> set b. tagged rec)
             \<and> (((\<forall>b \<in> set (store_inserts w). \<not> rejected store b) \<and> e \<noteq> InsertFailed)
                \<or> (\<exists>old b. store_inserts w = old @ [b] \<and> (\<forall>b' \<in> set old. \<not> rejected store b')
                       \<and> rejected store b \<and> e = InsertFailed))"
  shows "case import_products db api store of
           Inl x \<Rightarrow> E x
         | Inr rep \<Rightarrow> (\<exists>st :: 'v run_state. J st \<and> rep_world rep = world st)"
proof (rule import_products_invariant [where J = J and E = E])
  show "J initial_state" by (simp add: J_def initial_state_def)
next
  fix st :: "'v run_state" and row
  assume "J st" then show "J (add_chunks st [build_chunk db row])" by (simp add: J_def)
next
  fix st :: "'v run_state"
  assume "J st" then show "E (ZeroDivisionError, world st)" by (simp add: J_def E_def)
next
  fix st st' :: "'v run_state"
  assume j: "J st" and f: "flush api store st = Inr st'"
  from flush_cases [of api store st] f obtain data d where
    d: "store (map record_of (attached (batch_chunks st) data)) = Some d" "d \<noteq> []" and
    st': "st' = st\<lparr>inserted := inserted st + length d,
                   world := after_insert st (attached (batch_chunks st) data)\<rparr>"
    by auto
  have "\<forall>rec \<in> set (map record_of (attached (batch_chunks st) data)). tagged rec"
    by (auto simp: tagged_def record_of_fields)
  moreover have "\<not> rejected store (map record_of (attached (batch_chunks st) data))"
    using d by (simp add: rejected_def)
  ultimately show "J st' \<and> J (st'\<lparr>batch_chunks := []\<rparr>)"
    using j by (auto simp: J_def st')
next
  fix st :: "'v run_state" and x
  assume j: "J st" and f: "flush api store st = Inl x"
  from flush_cases [of api store st] f consider
    (request) e where "e \<noteq> InsertFailed" "x = (e, after_request st)"
    | (insert) data where "rejected store (map record_of (attached (batch_chunks st) data))"
        "x = (InsertFailed, after_insert st (attached (batch_chunks st) data))"
    by auto
  then show "E x"
  proof cases
    case request
    with j show ?thesis by (simp add: E_def J_def)
  next
    case insert
    have "\<forall>rec \<in> set (map record_of (attached (batch_chunks st) data)). tagged rec"
      by (auto simp: tagged_def record_of_fields)
    with insert j show ?thesis by (auto simp: E_def J_def)
  qed
qed

lemma one_product_rows:
  "canonical_rows (products one_product_db) (total_products (products one_product_db))
     = [brake_disc]"
  by (simp add: one_product_db_def total_products_def MAX_PRODUCTS_def brake_disc_canonical)

lemma one_product_loop:
  "process_rows one_product_db api store initial_state [brake_disc]
     = Inr (add_chunks initial_state [build_chunk one_product_db brake_disc])"
  by (simp add: process_row_eq BATCH_SIZE_def initial_state_def)

lemma one_product_run_rejected:
  "import_products one_product_db length_api empty_store =
     Inl (InsertFailed,
          \<lparr> embedding_requests = [[content (build_chunk one_product_db brake_disc)]],
            store_inserts = [[embedded_record length (build_chunk one_product_db brake_disc)]] \<rparr>)"
  by (simp only: import_products_def one_product_rows one_product_loop Let_def)
     (simp add: final_flush_def add_chunks_def initial_state_def flush_def
        generate_embeddings_def insert_to_supabase_def length_api_def empty_store_def
        embedded_record_def Let_def)

text \<open>
  Claim C8. For every batch the sink write performs one bulk insert of the batch's records;
  each record carries the fixed source tag \<open>volvo_sqlite\<close> and a token estimate equal to
  the length of its text divided by 4 (integer division); and whenever the store returns an
  empty or absent result the run ends at once with the error \<open>InsertFailed\<close>: the
  rejected insert is the last thing sent to the store (no retry, no later batch), and the
  inserts sent before it stay as they are (no rollback).
\<close>

theorem sink_write_once_and_fatal:
  "snd (insert_to_supabase store chunks w)
     = w\<lparr>store_inserts := store_inserts w @ [map record_of chunks]\<rparr>
   \<and> (fst (insert_to_supabase store chunks w) = Inl InsertFailed
        \<longleftrightarrow> rejected store (map record_of chunks))
   \<and> (\<forall>b \<in> set (store_inserts (world_of (import_products db api store))). \<forall>rec \<in> set b.
         kb_source rec = ''volvo_sqlite'' \<and> kb_tokens rec = length (kb_content rec) div 4)
   \<and> (\<forall>i < length (store_inserts (world_of (import_products db api store))).
         rejected store (store_inserts (world_of (import_products db api store)) ! i) \<longrightarrow>
           Suc i = length (store_inserts (world_of (import_products db api store)))
           \<and> (\<exists>w'. import_products db api store = Inl (InsertFailed, w')))"
proof -
  let ?res = "import_products db api store"
  let ?ins = "store_inserts (world_of ?res)"
  have tagged: "\<forall>b \<in> set ?ins. \<forall>rec \<in> set b.
         kb_source rec = ''volvo_sqlite'' \<and> kb_tokens rec = length (kb_content rec) div 4"
    using sink_invariant [where db = db and api = api and store = store]
    by (cases ?res) (auto simp: world_of_def)
  have fatal: "Suc i = length ?ins \<and> (\<exists>w'. ?res = Inl (InsertFailed, w'))"
    if i: "i < length ?ins" and r: "rejected store (?ins ! i)" for i
  proof (cases ?res)
    case (Inr rep)
    with sink_invariant [where db = db and api = api and store = store] i r show ?thesis
      by (auto simp: world_of_def)
  next
    case (Inl x)
    obtain e w' where x: "x = (e, w')" by (cases x)
    from sink_invariant [where db = db and api = api and store = store] Inl x
    consider (fine) "\<forall>b \<in> set (store_inserts w'). \<not> rejected store b"
      | (last) old b where "store_inserts w' = old @ [b]"
          "\<forall>b' \<in> set old. \<not> rejected store b'" "e = InsertFailed"
      by auto
    then show ?thesis
    proof cases
      case fine
      with i r Inl x show ?thesis by (auto simp: world_of_def)
    next
      case last
      from i r Inl x last(1,2) have "\<not> i < length old"
        by (auto simp: world_of_def nth_append)
      with i Inl x last show ?thesis
        by (auto simp: world_of_def)
    qed
  qed
  show ?thesis
    using tagged fatal by (simp add: insert_world insert_failed_iff)
qed

theorem sink_write_once_and_fatal_witness:
  "rejected empty_store
      (store_inserts (world_of (import_products one_product_db length_api empty_store)) ! 0)
   \<and> length (store_inserts (world_of (import_products one_product_db length_api empty_store)))
        = 1
   \<and> (\<exists>w'. import_products one_product_db length_api empty_store = Inl (InsertFailed, w'))
   \<and> kb_source (store_inserts
                   (world_of (import_products one_product_db length_api empty_store)) ! 0 ! 0)
        = ''volvo_sqlite''
   \<and> kb_tokens (store_inserts
                   (world_of (import_products one_product_db length_api empty_store)) ! 0 ! 0)
        = length (content (build_chunk one_product_db brake_disc)) div 4"
proof -
  let ?ins = "store_inserts (world_of (import_products one_product_db length_api empty_store))"
  have ins: "?ins = [[embedded_record length (build_chunk one_product_db brake_disc)]]"
    by (simp add: one_product_run_rejected world_of_def)
  have len: "length ?ins = 1"
    by (simp add: ins)
  have r: "rejected empty_store (?ins ! 0)"
    by (simp add: rejected_def empty_store_def)
  have m: "?ins ! 0 \<in> set ?ins" "?ins ! 0 ! 0 \<in> set (?ins ! 0)"
    by (simp_all add: ins)
  have c: "kb_content (?ins ! 0 ! 0) = content (build_chunk one_product_db brake_disc)"
    by (simp add: ins embedded_record_def record_of_fields)
  note t = sink_write_once_and_fatal
    [where store = empty_store and chunks = "[]" and db = one_product_db and api = length_api
       and w = "\<lparr>embedding_requests = [], store_inserts = []\<rparr>"]
  from t len r have "\<exists>w'. import_products one_product_db length_api empty_store
      = Inl (InsertFailed, w')"
    by (metis One_nat_def lessI)
  moreover from t m have "kb_source (?ins ! 0 ! 0) = ''volvo_sqlite''
      \<and> kb_tokens (?ins ! 0 ! 0) = length (kb_content (?ins ! 0 ! 0)) div 4"
    by blast
  ultimately show ?thesis using len r c by simp
qed

subsection \<open>More on the price summary\<close>

lemma show_nat_numerals: "show_nat 2 = ''2''" "show_nat 3 = ''3''"
  by (simp_all add: show_nat.simps digit_char_def)

lemma three_variants:
  "get_product_variants three_variant_db (Some ''1205680'')
     = [variant_of disc_unpriced, variant_of brake_disc, variant_of disc_premium]"
  by (simp add: get_product_variants_def three_variant_db_def brake_disc_def disc_premium_def
      disc_unpriced_def blank_product_def eligible_def)

lemma three_variants_prices:
  "prices_of (get_product_variants three_variant_db (Some ''1205680'')) = [399 / 2, 250]"
  by (simp add: three_variants prices_of_def variant_of_def brake_disc_def disc_premium_def
      disc_unpriced_def blank_product_def truthy_num_def)

theorem variant_count_includes_unpriced_witness:
  "1 < length (prices_of (get_product_variants three_variant_db (Some ''1205680'')))
   \<and> length (prices_of (get_product_variants three_variant_db (Some ''1205680''))) = 2
   \<and> price_text (get_product_variants three_variant_db (Some ''1205680''))
        = ''Fr'' @ [CHR 0xE5] @ ''n 199.50 SEK (finns 3 varianter)''"
proof -
  have n: "length [r \<leftarrow> products three_variant_db.
                    oe_nummer r = Some ''1205680'' \<and> eligible r] = 3"
    by (simp add: three_variant_db_def brake_disc_def disc_premium_def disc_unpriced_def
        blank_product_def eligible_def)
  have m: "Min (set [399 / 2, 250 :: rat]) = 399 / 2"
    by simp
  from variant_count_includes_unpriced [of three_variant_db "''1205680''" "[]"]
  show ?thesis
    by (simp add: three_variants_prices n m fmt_examples show_nat_numerals)
qed

subsection \<open>Eligibility\<close>

lemma variants_eligible:
  assumes "v \<in> set (get_product_variants db oe)"
  shows "\<exists>r' \<in> set (products db). eligible r' \<and> v_id v = row_id r'"
  using assms
  by (cases oe) (auto simp: get_product_variants_def variant_of_def)

lemma same_id_same_row:
  "distinct (map row_id tbl) \<Longrightarrow> r \<in> set tbl \<Longrightarrow> r' \<in> set tbl \<Longrightarrow> row_id r = row_id r'
     \<Longrightarrow> r = r'"
  by (meson distinct_map inj_on_def)

lemma ineligible_not_variant:
  assumes "distinct (map row_id (products db))" "r \<in> set (products db)" "\<not> eligible r"
  shows "row_id r \<notin> v_id ` set (get_product_variants db oe)"
proof
  assume "row_id r \<in> v_id ` set (get_product_variants db oe)"
  then obtain v where "v \<in> set (get_product_variants db oe)" "v_id v = row_id r"
    by auto
  with variants_eligible obtain r' where "r' \<in> set (products db)" "eligible r'"
      "row_id r' = row_id r"
    by metis
  with same_id_same_row [OF assms(1) assms(2)] assms(3) show False
    by metis
qed

lemma build_chunk_metadata:
  "md_product_id (metadata (build_chunk db row)) = row_id row"
  "md_variant_ids (metadata (build_chunk db row))
     = map v_id (get_product_variants db (oe_nummer row))"
  by (simp_all add: build_chunk_def create_chunk_def metadata_of_def Let_def)

text \<open>
  A property of the metadata of every chunk built for a canonical row holds for every
  record the run sends to the store.
\<close>

lemma stored_metadata:
  fixes store :: "'v store_api"
  assumes P: "\<And>row. row \<in> set (canonical_rows (products db) (total_products (products db)))
                 \<Longrightarrow> P (metadata (build_chunk db row))"
  shows "\<forall>b \<in> set (store_inserts (world_of (import_products db api store))).
           \<forall>rec \<in> set b. P (kb_metadata rec)"
proof -
  define J where "J = (\<lambda>st :: 'v run_state.
      (\<forall>c \<in> set (batch_chunks st). P (metadata c))
      \<and> (\<forall>b \<in> set (store_inserts (world st)). \<forall>rec \<in> set b. P (kb_metadata rec)))"
  define E where "E = (\<lambda>(e :: error, w :: 'v world).
      \<forall>b \<in> set (store_inserts w). \<forall>rec \<in> set b. P (kb_metadata rec))"
  have batch: "\<forall>rec \<in> set (map record_of (attached (batch_chunks st) data)). P (kb_metadata rec)"
    if "J st" for st :: "'v run_state" and data :: "'v list"
    using that by (auto simp: J_def record_of_fields dest!: attached_set)
  have "case import_products db api store of
          Inl x \<Rightarrow> E x
        | Inr rep \<Rightarrow> (\<exists>st :: 'v run_state. J st \<and> rep_world rep = world st)"
  proof (rule import_products_invariant [where J = J and E = E])
    show "J initial_state" by (simp add: J_def initial_state_def)
  next
    fix st :: "'v run_state" and row
    assume "row \<in> set (canonical_rows (products db) (total_products (products db)))" "J st"
    with P show "J (add_chunks st [build_chunk db row])"
      by (auto simp: J_def add_chunks_def)
  next
    fix st :: "'v run_state"
    assume "J st" then show "E (ZeroDivisionError, world st)" by (simp add: J_def E_def)
  next
    fix st st' :: "'v run_state"
    assume j: "J st" and f: "flush api store st = Inr st'"
    from flush_cases [of api store st] f obtain data d where
      d: "store (map record_of (attached (batch_chunks st) data)) = Some d" "d \<noteq> []" and
      st': "st' = st\<lparr>inserted := inserted st + length d,
                     world := after_insert st (attached (batch_chunks st) data)\<rparr>"
      by auto
    from batch [OF j, of data] j show "J st' \<and> J (st'\<lparr>batch_chunks := []\<rparr>)"
      by (auto simp: J_def st')
  next
    fix st :: "'v run_state" and x
    assume j: "J st" and f: "flush api store st = Inl x"
    from flush_cases [of api store st] f consider
      (request) e where "x = (e, after_request st)"
      | (insert) data where
          "x = (InsertFailed, after_insert st (attached (batch_chunks st) data))"
      by auto
    then show "E x"
    proof cases
      case request
      with j show ?thesis by (simp add: E_def J_def)
    next
      case insert
      with batch [OF j, of data] j show ?thesis by (auto simp: E_def J_def)
    qed
  qed
  then show ?thesis
    by (cases "import_products db api store") (auto simp: world_of_def J_def E_def)
qed

text \<open>
  Claim C5. A product row whose has-fitments flag is false and whose translation status is
  not \<open>verified\<close> is never selected as a canonical row, never appears among the variants
  that \<open>get_product_variants\<close> returns, and (row ids being unique) no record that the run
  sends to the store has its id as product id or among its variant ids; this holds whatever
  the row's rank in its part-number group is.
\<close>

theorem ineligible_rows_excluded:
  assumes "distinct (map row_id (products db))"
    and "r \<in> set (products db)"
    and "\<not> has_fitments r"
    and "translation_status r \<noteq> Some ''verified''"
  shows "r \<notin> set (canonical_rows (products db) limit)
    \<and> (\<forall>oe. row_id r \<notin> v_id ` set (get_product_variants db oe))
    \<and> (\<forall>b \<in> set (store_inserts (world_of (import_products db api store))). \<forall>rec \<in> set b.
          md_product_id (kb_metadata rec) \<noteq> row_id r
          \<and> row_id r \<notin> set (md_variant_ids (kb_metadata rec)))"
proof -
  have ne: "\<not> eligible r"
    using assms(3,4) by (simp add: eligible_def)
  have 1: "r \<notin> set (canonical_rows (products db) limit)" for limit
    using canonical_rows_mem(2) ne by blast
  have 2: "row_id r \<notin> v_id ` set (get_product_variants db oe)" for oe
    by (rule ineligible_not_variant [OF assms(1,2) ne])
  have 3: "md_product_id (metadata (build_chunk db row)) \<noteq> row_id r
      \<and> row_id r \<notin> set (md_variant_ids (metadata (build_chunk db row)))"
    if "row \<in> set (canonical_rows (products db) (total_products (products db)))" for row
  proof -
    from canonical_rows_mem [OF that] have "row \<in> set (products db)" "eligible row"
      by simp_all
    with same_id_same_row [OF assms(1) assms(2), of row] ne have "row_id row \<noteq> row_id r"
      by auto
    with 2 [of "oe_nummer row"] show ?thesis
      by (simp add: build_chunk_metadata)
  qed
  from stored_metadata [where P = "\<lambda>md. md_product_id md \<noteq> row_id r
      \<and> row_id r \<notin> set (md_variant_ids md)" and db = db and api = api and store = store, OF 3]
  show ?thesis using 1 2 by blast
qed

theorem ineligible_rows_excluded_witness:
  "distinct (map row_id (products two_group_db))
   \<and> unlisted_part \<in> set (products two_group_db)
   \<and> \<not> has_fitments unlisted_part
   \<and> translation_status unlisted_part \<noteq> Some ''verified''
   \<and> unlisted_part \<notin> set (canonical_rows (products two_group_db) 2)
   \<and> row_id unlisted_part \<notin> v_id ` set (get_product_variants two_group_db (Some ''9999''))
   \<and> row_id unlisted_part \<notin> v_id ` set (get_product_variants two_group_db (Some ''1205680''))"
proof -
  have d: "distinct (map row_id (products two_group_db))"
    by (simp add: two_group_db_def brake_disc_def unlisted_part_def blank_product_def)
  have m: "unlisted_part \<in> set (products two_group_db)"
    by (simp add: two_group_db_def)
  have f: "\<not> has_fitments unlisted_part"
    by (simp add: unlisted_part_def blank_product_def)
  have t: "translation_status unlisted_part \<noteq> Some ''verified''"
    by (simp add: unlisted_part_def blank_product_def)
  from ineligible_rows_excluded [OF d m f t, of 2 length_api echo_store]
  show ?thesis using d m f t by blast
qed

subsection \<open>Tables in which every row is canonical\<close>

lemma filter_same_key:
  "distinct (map f xs) \<Longrightarrow> x \<in> set xs \<Longrightarrow> [y \<leftarrow> xs. f y = f x] = [x]"
proof (induction xs)
  case Nil
  then show ?case by simp
next
  case (Cons a xs)
  show ?case
  proof (cases "a = x")
    case True
    with Cons.prems(1) have "f x \<notin> f ` set xs" by simp
    then have "\<forall>y \<in> set xs. f y \<noteq> f x"
      by (metis imageI)
    then have "[y \<leftarrow> xs. f y = f x] = []"
      by (simp add: filter_empty_conv)
    with True show ?thesis by simp
  next
    case False
    with Cons.prems have "x \<in> set xs" "f a \<noteq> f x" by auto
    with Cons show ?thesis by simp
  qed
qed

lemma total_products_length: "total_products tbl = length tbl"
  by (simp add: total_products_def MAX_PRODUCTS_def)

lemma comprehension_all:
  "(\<forall>p \<in> set xs. Q p) \<Longrightarrow> [f p. p \<leftarrow> xs, Q p] = map f xs"
  by (induction xs) auto

lemma canonical_rows_all:
  assumes hf: "\<forall>r \<in> set tbl. has_fitments r"
    and oe: "\<forall>r \<in> set tbl. oe_nummer r \<noteq> None"
    and d: "distinct (map oe_nummer tbl)"
    and s: "sorted (map row_id tbl)"
  shows "canonical_rows tbl (total_products tbl) = tbl"
proof -
  have best: "best_id tbl r = Some (row_id r)" if r: "r \<in> set tbl" for r
  proof -
    from oe r obtain num where num: "oe_nummer r = Some num" by auto
    from filter_same_key [OF d r] num have "[p2 \<leftarrow> tbl. oe_nummer p2 = Some num] = [r]"
      by simp
    then show ?thesis by (simp add: best_id_def group_ranked_def num)
  qed
  then have ids: "representative_ids tbl = map row_id tbl"
    unfolding representative_ids_def by (intro comprehension_all) simp
  have keep: "[r \<leftarrow> tbl. row_id r \<in> set (representative_ids tbl) \<and> eligible r] = tbl"
    using hf by (simp add: ids eligible_def)
  have "map (\<lambda>r. (\<not> has_fitments r, row_id r)) tbl = map (\<lambda>r. (False, row_id r)) tbl"
    using hf by simp
  also have "\<dots> = map (Pair False) (map row_id tbl)"
    by simp
  finally have "sorted (map (\<lambda>r. (\<not> has_fitments r, row_id r)) tbl)"
    using s by (simp add: sorted_map sorted_wrt_iff_nth_less del: map_map)
  then have "sort_key (\<lambda>r. (\<not> has_fitments r, row_id r)) tbl = tbl"
    by (rule sort_key_id_if_sorted)
  then show ?thesis
    by (simp add: canonical_rows_def keep total_products_length)
qed

lemma numbered_rows:
  "canonical_rows (products (numbered_db n)) (total_products (products (numbered_db n)))
     = map numbered_product [0 ..< n]"
proof -
  have "inj_on (\<lambda>i. Some (replicate (Suc i) CHR ''1'')) {0 ..< n}"
    by (rule inj_onI, drule arg_cong [where f = "\<lambda>x. length (the x)"]) simp
  then have "distinct (map oe_nummer (map numbered_product [0 ..< n]))"
    by (simp add: distinct_map comp_def numbered_product_def blank_product_def)
  moreover have "sorted (map row_id (map numbered_product [0 ..< n]))"
    by (simp add: comp_def numbered_product_def blank_product_def sorted_map
        sorted_wrt_iff_nth_less)
  ultimately have "canonical_rows (map numbered_product [0 ..< n])
      (total_products (map numbered_product [0 ..< n])) = map numbered_product [0 ..< n]"
    by (intro canonical_rows_all) (auto simp: numbered_product_def blank_product_def)
  then show ?thesis by (simp add: numbered_db_def)
qed

subsection \<open>Batches\<close>




lemma flush_ok_state:
  assumes api: "\<forall>texts. api texts = Some (map emb texts)"
    and store: "\<forall>recs. recs \<noteq> [] \<longrightarrow> (\<exists>d. store recs = Some d \<and> d \<noteq> [])"
    and ne: "batch_chunks st \<noteq> []"
  shows "\<exists>st'. flush api store st = Inr st'
           \<and> batch_chunks st' = batch_chunks st \<and> processed st' = processed st
           \<and> embedding_requests (world st')
                = embedding_requests (world st) @ [map content (batch_chunks st)]
           \<and> store_inserts (world st')
                = store_inserts (world st) @ [map (embedded_record emb) (batch_chunks st)]"
  using flush_ok [OF api store ne] by auto

text \<open>A full batch, starting from an empty one: one request, one insert, the batch is reset.\<close>

lemma full_batch:
  assumes api: "\<forall>texts. api texts = Some (map emb texts)"
    and store: "\<forall>recs. recs \<noteq> [] \<longrightarrow> (\<exists>d. store recs = Some d \<and> d \<noteq> [])"
    and empty: "batch_chunks st = []"
    and len: "length rows = BATCH_SIZE"
  shows "\<exists>st'. process_rows db api store st rows = Inr st'
           \<and> batch_chunks st' = [] \<and> processed st' = processed st + BATCH_SIZE
           \<and> embedding_requests (world st')
                = embedding_requests (world st) @ [map content (map (build_chunk db) rows)]
           \<and> store_inserts (world st')
                = store_inserts (world st)
                    @ [map (embedded_record emb) (map (build_chunk db) rows)]"
proof -
  let ?st1 = "add_chunks st (map (build_chunk db) rows)"
  have ne: "rows \<noteq> []" using len by (auto simp: BATCH_SIZE_def)
  then have "batch_chunks ?st1 \<noteq> []" by (simp add: add_chunks_def)
  from flush_ok_state [OF api store this] obtain st2 where
    st2: "flush api store ?st1 = Inr st2" "processed st2 = processed ?st1"
      "embedding_requests (world st2)
         = embedding_requests (world ?st1) @ [map content (batch_chunks ?st1)]"
      "store_inserts (world st2)
         = store_inserts (world ?st1) @ [map (embedded_record emb) (batch_chunks ?st1)]"
    by blast
  have "process_rows db api store st rows = Inr (st2\<lparr>batch_chunks := []\<rparr>)"
    using process_rows_fill [of st rows db api store] empty len ne st2(1) by simp
  with st2 empty len show ?thesis
    by (simp add: add_chunks_def)
qed

text \<open>A last, partial batch: the loop only collects it, the final flush sends it.\<close>

lemma last_batch:
  assumes api: "\<forall>texts. api texts = Some (map emb texts)"
    and store: "\<forall>recs. recs \<noteq> [] \<longrightarrow> (\<exists>d. store recs = Some d \<and> d \<noteq> [])"
    and empty: "batch_chunks st = []"
    and len: "length rows < BATCH_SIZE" "rows \<noteq> []"
  shows "\<exists>st1 st'. process_rows db api store st rows = Inr st1
           \<and> final_flush api store st1 = Inr st'
           \<and> batch_chunks st' = map (build_chunk db) rows
           \<and> processed st' = processed st + length rows
           \<and> embedding_requests (world st')
                = embedding_requests (world st) @ [map content (map (build_chunk db) rows)]
           \<and> store_inserts (world st')
                = store_inserts (world st)
                    @ [map (embedded_record emb) (map (build_chunk db) rows)]"
proof -
  let ?st1 = "add_chunks st (map (build_chunk db) rows)"
  have run: "process_rows db api store st rows = Inr ?st1"
    using process_rows_short [of st rows db api store] empty len(1) by simp
  have ne: "batch_chunks ?st1 \<noteq> []" using len(2) by (simp add: add_chunks_def)
  from flush_ok_state [OF api store ne] obtain st2 where
    st2: "flush api store ?st1 = Inr st2" "batch_chunks st2 = batch_chunks ?st1"
      "processed st2 = processed ?st1"
      "embedding_requests (world st2)
         = embedding_requests (world ?st1) @ [map content (batch_chunks ?st1)]"
      "store_inserts (world st2)
         = store_inserts (world ?st1) @ [map (embedded_record emb) (batch_chunks ?st1)]"
    by blast
  have "final_flush api store ?st1 = Inr st2"
    using ne st2(1) by (simp add: final_flush_def)
  with run st2 empty show ?thesis
    by (simp add: add_chunks_def)
qed

lemma generate_embeddings_attached:
  assumes "api (map content chunks) = Some data" "length chunks \<le> length data"
  shows "fst (generate_embeddings api chunks w) = Inr (attached chunks data)"
  using assms by (simp add: generate_embeddings_def attached_def Let_def)

lemma embedded_record_own_text:
  "kb_embedding (embedded_record emb c) = emb (kb_content (embedded_record emb c))"
  by (simp add: embedded_record_def record_of_fields)

text \<open>
  Claim C4. With batch size 100, a run over 250 eligible canonical rows issues exactly 3
  embedding requests, with 100, 100 and 50 chunks; each request carries the rendered text
  of every member of its batch in input order; the returned vectors are attached to the
  chunks by position, so that (the service answering each text with its own vector, and
  the store accepting the inserts) every stored record carries the vector computed from
  its own text.
\<close>

theorem batches_of_250:
  fixes emb :: "string \<Rightarrow> 'v"
  defines "cs \<equiv> \<lambda>db. map (build_chunk db)
                   (canonical_rows (products db) (total_products (products db)))"
  assumes api: "\<forall>texts. api texts = Some (map emb texts)"
    and store: "\<forall>recs. recs \<noteq> [] \<longrightarrow> (\<exists>d. store recs = Some d \<and> d \<noteq> [])"
    and n: "length (canonical_rows (products db) (total_products (products db))) = 250"
  shows "(\<exists>rep. import_products db api store = Inr rep
          \<and> rep_processed rep = 250
          \<and> map length (embedding_requests (rep_world rep)) = [100, 100, 50]
          \<and> embedding_requests (rep_world rep)
               = [map content (take 100 (cs db)),
                  map content (take 100 (drop 100 (cs db))),
                  map content (drop 200 (cs db))]
          \<and> store_inserts (rep_world rep)
               = [map (embedded_record emb) (take 100 (cs db)),
                  map (embedded_record emb) (take 100 (drop 100 (cs db))),
                  map (embedded_record emb) (drop 200 (cs db))])
    \<and> (\<forall>c. kb_embedding (embedded_record emb c) = emb (kb_content (embedded_record emb c))
             \<and> kb_content (embedded_record emb c) = content c)
    \<and> (\<forall>data. api2 (map content chunks) = Some data \<and> length chunks \<le> length data \<longrightarrow>
          fst (generate_embeddings api2 chunks w) = Inr (attached chunks data)
          \<and> (\<forall>i < length chunks. attached chunks data ! i = attach (chunks ! i) (data ! i)))"
proof -
  let ?rows = "canonical_rows (products db) (total_products (products db))"
  let ?r1 = "take 100 ?rows" and ?r2 = "take 100 (drop 100 ?rows)" and ?r3 = "drop 200 ?rows"
  have split: "?rows = ?r1 @ ?r2 @ ?r3"
    by (metis add_2_eq_Suc' append_take_drop_id drop_drop numeral_Bit0 take_add)
  have l1: "length ?r1 = BATCH_SIZE" and l2: "length ?r2 = BATCH_SIZE"
    and l3: "length ?r3 < BATCH_SIZE" "?r3 \<noteq> []" "length ?r3 = 50"
    using n by (auto simp: BATCH_SIZE_def)
  let ?i = "initial_state :: 'v run_state"
  from full_batch [OF api store _ l1, of ?i db] obtain st1 where
    st1: "process_rows db api store ?i ?r1 = Inr st1" "batch_chunks st1 = []"
      "processed st1 = BATCH_SIZE"
      "embedding_requests (world st1) = [map content (map (build_chunk db) ?r1)]"
      "store_inserts (world st1) = [map (embedded_record emb) (map (build_chunk db) ?r1)]"
    by (auto simp: initial_state_def)
  from full_batch [OF api store st1(2) l2, of db] obtain st2 where
    st2: "process_rows db api store st1 ?r2 = Inr st2" "batch_chunks st2 = []"
      "processed st2 = BATCH_SIZE + BATCH_SIZE"
      "embedding_requests (world st2)
         = [map content (map (build_chunk db) ?r1), map content (map (build_chunk db) ?r2)]"
      "store_inserts (world st2)
         = [map (embedded_record emb) (map (build_chunk db) ?r1),
            map (embedded_record emb) (map (build_chunk db) ?r2)]"
    by (auto simp: st1)
  from last_batch [OF api store st2(2) l3(1,2), of db] obtain st3 st4 where
    st3: "process_rows db api store st2 ?r3 = Inr st3"
      "final_flush api store st3 = Inr st4"
      "processed st4 = BATCH_SIZE + BATCH_SIZE + length ?r3"
      "embedding_requests (world st4)
         = [map content (map (build_chunk db) ?r1), map content (map (build_chunk db) ?r2),
            map content (map (build_chunk db) ?r3)]"
      "store_inserts (world st4)
         = [map (embedded_record emb) (map (build_chunk db) ?r1),
            map (embedded_record emb) (map (build_chunk db) ?r2),
            map (embedded_record emb) (map (build_chunk db) ?r3)]"
    by (auto simp: st2)
  have loop: "process_rows db api store ?i ?rows = Inr st3"
    by (subst split) (simp add: process_rows_append st1 st2 st3 del: append_take_drop_id)
  have p: "processed st4 = 250"
    using st3(3) l3(3) by (simp add: BATCH_SIZE_def)
  let ?rep = "\<lparr> rep_processed = processed st4, rep_inserted = inserted st4,
      rep_total_tokens = total_tokens_of st4, rep_world = world st4 \<rparr>"
  have run: "import_products db api store = Inr ?rep"
    using loop st3(2) p by (simp add: import_products_def summary_def)
  have lens: "length (take 100 (cs db)) = 100" "length (take 100 (drop 100 (cs db))) = 100"
    "length (drop 200 (cs db)) = 50"
    using n by (simp_all add: cs_def)
  have 1: "\<exists>rep. import_products db api store = Inr rep
          \<and> rep_processed rep = 250
          \<and> map length (embedding_requests (rep_world rep)) = [100, 100, 50]
          \<and> embedding_requests (rep_world rep)
               = [map content (take 100 (cs db)),
                  map content (take 100 (drop 100 (cs db))),
                  map content (drop 200 (cs db))]
          \<and> store_inserts (rep_world rep)
               = [map (embedded_record emb) (take 100 (cs db)),
                  map (embedded_record emb) (take 100 (drop 100 (cs db))),
                  map (embedded_record emb) (drop 200 (cs db))]"
    using lens by (intro exI [of _ ?rep]) (simp add: run p st3 cs_def take_map drop_map)
  have 2: "kb_embedding (embedded_record emb c) = emb (kb_content (embedded_record emb c))
      \<and> kb_content (embedded_record emb c) = content c" for c
    by (simp add: embedded_record_def record_of_fields)
  have 3: "fst (generate_embeddings api2 chunks w) = Inr (attached chunks data)
      \<and> (\<forall>i < length chunks. attached chunks data ! i = attach (chunks ! i) (data ! i))"
    if "api2 (map content chunks) = Some data" "length chunks \<le> length data" for data
    using that by (simp add: generate_embeddings_attached attached_nth)
  from 1 2 3 show ?thesis by blast
qed

theorem batches_of_250_witness:
  "length (canonical_rows (products (numbered_db 250))
       (total_products (products (numbered_db 250)))) = 250
   \<and> (\<exists>rep. import_products (numbered_db 250) length_api echo_store = Inr rep
         \<and> rep_processed rep = 250
         \<and> map length (embedding_requests (rep_world rep)) = [100, 100, 50]
         \<and> map length (store_inserts (rep_world rep)) = [100, 100, 50])"
proof -
  have a: "\<forall>texts. length_api texts = Some (map length texts)"
    by (simp add: length_api_def)
  have s: "\<forall>recs. recs \<noteq> [] \<longrightarrow> (\<exists>d. echo_store recs = Some d \<and> d \<noteq> [])"
    by (simp add: echo_store_def)
  have n: "length (canonical_rows (products (numbered_db 250))
       (total_products (products (numbered_db 250)))) = 250"
    by (simp add: numbered_rows)
  let ?cs = "map (build_chunk (numbered_db 250))
      (canonical_rows (products (numbered_db 250)) (total_products (products (numbered_db 250))))"
  have "\<exists>rep. import_products (numbered_db 250) length_api echo_store = Inr rep
          \<and> rep_processed rep = 250
          \<and> map length (embedding_requests (rep_world rep)) = [100, 100, 50]
          \<and> embedding_requests (rep_world rep)
               = [map content (take 100 ?cs), map content (take 100 (drop 100 ?cs)),
                  map content (drop 200 ?cs)]
          \<and> store_inserts (rep_world rep)
               = [map (embedded_record length) (take 100 ?cs),
                  map (embedded_record length) (take 100 (drop 100 ?cs)),
                  map (embedded_record length) (drop 200 ?cs)]"
    by (rule batches_of_250 [OF a s n, of undefined "[]" undefined, THEN conjunct1])
  then obtain rep where
    rep: "import_products (numbered_db 250) length_api echo_store = Inr rep
          \<and> rep_processed rep = 250
          \<and> map length (embedding_requests (rep_world rep)) = [100, 100, 50]
          \<and> embedding_requests (rep_world rep)
               = [map content (take 100 ?cs), map content (take 100 (drop 100 ?cs)),
                  map content (drop 200 ?cs)]
          \<and> store_inserts (rep_world rep)
               = [map (embedded_record length) (take 100 ?cs),
                  map (embedded_record length) (take 100 (drop 100 ?cs)),
                  map (embedded_record length) (drop 200 ?cs)]" ..
  then have "map length (store_inserts (rep_world rep)) = [100, 100, 50]"
    by (simp add: n)
  with rep have "import_products (numbered_db 250) length_api echo_store = Inr rep
         \<and> rep_processed rep = 250
         \<and> map length (embedding_requests (rep_world rep)) = [100, 100, 50]
         \<and> map length (store_inserts (rep_world rep)) = [100, 100, 50]"
    by simp
  then have "\<exists>rep. import_products (numbered_db 250) length_api echo_store = Inr rep
         \<and> rep_processed rep = 250
         \<and> map length (embedding_requests (rep_world rep)) = [100, 100, 50]
         \<and> map length (store_inserts (rep_world rep)) = [100, 100, 50]" ..
  with n show ?thesis by (rule conjI)
qed

subsection \<open>The cost estimate\<close>














subsection \<open>The deduplication query\<close>



lemma strict_ids_distinct: "sorted_wrt (<) (map row_id tbl) \<Longrightarrow> distinct (map row_id tbl)"
  by (simp add: strict_sorted_iff)














subsection \<open>Fitment aggregation\<close>







lemma distinct_first_Nil [simp]: "distinct_first xs = [] \<longleftrightarrow> xs = []"
  by (cases xs) simp_all

lemma sort_Nil [simp]: "sort xs = [] \<longleftrightarrow> xs = []"
  by (metis length_0_conv length_sort)



lemma set_distinct_first [simp]: "set (distinct_first xs) = set xs"
  by (induction xs) auto






end
